theory Spec2Isabelle
  imports Main
begin

section \<open>The MySQL lock driver of tooz (\<^verbatim>\<open>tooz/drivers/mysql.py\<close>)\<close>

text \<open>
  The driver keeps one row per held lock in the table \<^verbatim>\<open>tooz_locks\<close> of a MySQL server.
  The embedding has three layers:
  \<^item> the server and its connections, as far as the driver observes them: which statement
    succeeds, which raises which class of \<^verbatim>\<open>pymysql\<close> error;
  \<^item> the environment: other clients and network failures, as a script of actions of
    which one is consumed before each interaction of the driver with the server;
  \<^item> the driver itself: \<^verbatim>\<open>MySQLLock\<close> and \<^verbatim>\<open>MySQLDriver\<close>, method by method, with
    every \<^verbatim>\<open>raise\<close> a left injection and every mutation a new state.
\<close>

subsection \<open>Store errors and driver exceptions\<close>

text \<open>
  The classes of \<^verbatim>\<open>pymysql.MySQLError\<close> the handlers of the driver tell apart:
  \<^verbatim>\<open>ProgrammingError\<close> (missing table, malformed statement), \<^verbatim>\<open>IntegrityError\<close>
  (duplicate primary key), and the rest, all caught by \<^verbatim>\<open>except pymysql.MySQLError\<close>:
  \<^verbatim>\<open>OperationalError\<close> (lost connection, unreachable server), \<^verbatim>\<open>InternalError\<close>
  (an error number the client library maps to no class of its own, such as "table
  exists"), \<^verbatim>\<open>InterfaceError\<close> (statement on a closed connection) and \<open>OtherError\<close>
  for the remaining classes (the plain \<^verbatim>\<open>Error\<close> of a second \<^verbatim>\<open>close\<close>).
\<close>

datatype mysql_error =
    ProgrammingError
  | IntegrityError
  | OperationalError
  | InternalError
  | InterfaceError
  | OtherError

text \<open>
  What a method of the driver can raise. \<^verbatim>\<open>ToozError\<close>, \<^verbatim>\<open>LockAcquireFailed\<close> and
  \<^verbatim>\<open>ToozConnectionError\<close> are raised through \<^verbatim>\<open>coordination.raise_with_cause\<close> and
  carry the store error that caused them.
\<close>

datatype exn =
    Retry
  | BlockingTimeout
  | ToozError mysql_error
  | LockAcquireFailed mysql_error
  | ToozConnectionError mysql_error
  | MySQLError mysql_error
  | AttributeError
  | ValueError

subsection \<open>The store: table, connections, environment\<close>

record row =
  row_name :: string
  created_at :: nat
  updated_at :: nat
  created_by :: string

datatype conn_state = ConnOpen | ConnLost | ConnClosed

text \<open>
  The statements the driver sends, by the strings it formats into them. \<open>Insert n m\<close>
  is the text \<^verbatim>\<open>INSERT INTO `tooz_locks` (`name`, `created_at`, `created_by`) values
  ('n', CURRENT_TIMESTAMP, 'm');\<close> and \<open>Delete n m\<close> the text
  \<^verbatim>\<open>DELETE FROM `tooz_locks` WHERE `name` = 'n' AND `created_by` = 'm';\<close>, with
  \<^verbatim>\<open>str(self.name)\<close> for \<open>n\<close> and \<^verbatim>\<open>str(self.coord._member_id)\<close> for \<open>m\<close>
  copied between the quotes as they are, nothing escaped. \<open>UpdateWhere\<close> is the
  statement of \<^verbatim>\<open>MySQLLock.heartbeat\<close>,
  \<^verbatim>\<open>UPDATE `tooz_locks` WHERE `name` = n AND `created_by` = m;\<close>, which has no
  \<^verbatim>\<open>SET\<close> clause.
\<close>

datatype stmt =
    Insert string string
  | CreateTable
  | Delete string string
  | UpdateWhere string string

datatype event = EvOpen nat | EvExec nat stmt | EvConnect nat | EvClose nat

datatype env_action =
    EnvSkip
  | EnvCreateTable
  | EnvDropTable
  | EnvInsert string string
  | EnvDelete string
  | EnvLoseConn nat
  | EnvServerDown
  | EnvServerUp
  | EnvTick

text \<open>
  A lock handle (\<^verbatim>\<open>MySQLLock\<close>): \<open>lock_id\<close> is the identity of the Python object,
  which is what \<^verbatim>\<open>self in self.coord._acquired_locks\<close> and \<^verbatim>\<open>list.remove\<close> compare,
  the class defining no \<^verbatim>\<open>__eq__\<close>; \<open>lock_conn\<close> is \<^verbatim>\<open>self._conn\<close>.
\<close>

record lock =
  lock_id :: nat
  lock_name :: string
  lock_conn :: nat

text \<open>
  The world: the server (\<open>table\<close> is \<open>None\<close> while \<^verbatim>\<open>tooz_locks\<close> does not exist,
  \<open>clock\<close> is \<^verbatim>\<open>CURRENT_TIMESTAMP\<close>, \<open>injected\<close> is explained with \<open>react\<close>
  below), the connections ever opened (a connection is its index in \<open>conns\<close>), the
  script of the environment, the trace of what the driver did to the server, and the
  fields of the one \<^verbatim>\<open>MySQLDriver\<close> under study: \<^verbatim>\<open>_member_id\<close>, \<^verbatim>\<open>_conn\<close>
  (absent until \<^verbatim>\<open>_start\<close>) and \<^verbatim>\<open>_acquired_locks\<close>.
\<close>

record world =
  table :: "row list option"
  clock :: nat
  injected :: "(mysql_error + row list) list"
  server_up :: bool
  conns :: "conn_state list"
  env :: "env_action list"
  log :: "event list"
  member_id :: string
  coord_conn :: "nat option"
  acquired_locks :: "lock list"
  next_lock :: nat

subsection \<open>What the server makes of a formatted string\<close>

text \<open>
  The server reads \<^verbatim>\<open>'n'\<close> as a string literal, in its default mode: a backslash
  escapes the character after it, two quotes in a row are one quote, and a quote alone
  ends the literal. \<open>sql_unescape n\<close> is the value of the literal when \<open>n\<close> stays
  between the quotes of the template, and \<open>None\<close> when it does not: when a quote of
  \<open>n\<close> ends the literal early and the rest of \<open>n\<close> is read as SQL, or when its last
  character swallows the closing quote.
\<close>

definition sql_quote :: char where
  "sql_quote = CHR 0x27"

definition sql_backslash :: char where
  "sql_backslash = CHR 0x5C"

definition sql_escape :: "char \<Rightarrow> string" where
  "sql_escape c =
     (if c = CHR ''0'' then [CHR 0x00]
      else if c = CHR ''b'' then [CHR 0x08]
      else if c = CHR ''n'' then [CHR 0x0A]
      else if c = CHR ''r'' then [CHR 0x0D]
      else if c = CHR ''t'' then [CHR 0x09]
      else if c = CHR ''Z'' then [CHR 0x1A]
      else if c = CHR ''%'' \<or> c = CHR ''_'' then [sql_backslash, c]
      else [c])"

fun sql_unescape :: "string \<Rightarrow> string option" where
  "sql_unescape [] = Some []"
| "sql_unescape [c] = (if c = sql_quote \<or> c = sql_backslash then None else Some [c])"
| "sql_unescape (c # d # s) =
     (if c = sql_backslash then map_option ((@) (sql_escape d)) (sql_unescape s)
      else if c = sql_quote then
        (if d = sql_quote then map_option ((#) sql_quote) (sql_unescape s) else None)
      else map_option ((#) c) (sql_unescape (d # s)))"

text \<open>
  The columns are \<^verbatim>\<open>varchar(255)\<close> in \<^verbatim>\<open>CHARSET=utf8\<close>, whose collation compares
  without regard to letter case and to trailing spaces. The embedding follows the server
  on values of at most 255 ASCII characters, which \<open>sql_eq\<close> compares as that
  collation does; what the server does with longer values and with other bytes depends on
  its mode and is not computed here.
\<close>

definition sql_ascii :: "string \<Rightarrow> bool" where
  "sql_ascii s = list_all (\<lambda>c. (of_char c :: nat) < 128) s"

definition sql_upper :: "char \<Rightarrow> char" where
  "sql_upper c =
     (if (97::nat) \<le> of_char c \<and> (of_char c :: nat) \<le> 122
      then char_of ((of_char c :: nat) - 32) else c)"

definition sql_key :: "string \<Rightarrow> string" where
  "sql_key s = map sql_upper (rev (dropWhile (\<lambda>c. c = CHR 0x20) (rev s)))"

definition sql_eq :: "string \<Rightarrow> string \<Rightarrow> bool" where
  "sql_eq a b = (sql_key a = sql_key b)"

definition sql_value :: "string \<Rightarrow> string option" where
  "sql_value s =
     (case sql_unescape s of
        None \<Rightarrow> None
      | Some v \<Rightarrow> if length v \<le> 255 \<and> sql_ascii v then Some v else None)"

text \<open>A string that is its own value: short, ASCII, without quote or backslash.\<close>

definition sql_plain :: "string \<Rightarrow> bool" where
  "sql_plain s =
     (length s \<le> 255 \<and> sql_ascii s \<and> sql_quote \<notin> set s \<and> sql_backslash \<notin> set s)"

definition rows_ascii :: "row list \<Rightarrow> bool" where
  "rows_ascii rows = list_all (\<lambda>r. sql_ascii (row_name r) \<and> sql_ascii (created_by r)) rows"

text \<open>
  The two values of a statement over a table the embedding can follow, or \<open>None\<close>.
\<close>

definition sql_values :: "string \<Rightarrow> string \<Rightarrow> row list \<Rightarrow> (string \<times> string) option" where
  "sql_values n m rows =
     (case sql_value n of
        None \<Rightarrow> None
      | Some vn \<Rightarrow>
          (case sql_value m of
             None \<Rightarrow> None
           | Some vm \<Rightarrow> if rows_ascii rows then Some (vn, vm) else None))"

subsection \<open>The table\<close>

definition has_name :: "string \<Rightarrow> row list \<Rightarrow> bool" where
  "has_name n rows = list_ex (\<lambda>r. sql_eq (row_name r) n) rows"

definition new_row :: "string \<Rightarrow> string \<Rightarrow> nat \<Rightarrow> row" where
  "new_row n m t = \<lparr>row_name = n, created_at = t, updated_at = t, created_by = m\<rparr>"

definition conn_alive :: "world \<Rightarrow> nat \<Rightarrow> bool" where
  "conn_alive w c = (c < length (conns w) \<and> conns w ! c = ConnOpen)"

definition lose_conn :: "nat \<Rightarrow> conn_state list \<Rightarrow> conn_state list" where
  "lose_conn c cs = (if c < length cs \<and> cs ! c = ConnOpen then cs[c := ConnLost] else cs)"

text \<open>
  One action of the environment. Other clients go through the same server, so their
  inserts respect the primary key and their \<^verbatim>\<open>CREATE TABLE\<close> an existing table.
\<close>

fun env_apply :: "env_action \<Rightarrow> world \<Rightarrow> world" where
  "env_apply EnvSkip w = w"
| "env_apply EnvCreateTable w =
     (case table w of None \<Rightarrow> w\<lparr>table := Some []\<rparr> | Some rows \<Rightarrow> w)"
| "env_apply EnvDropTable w = w\<lparr>table := None\<rparr>"
| "env_apply (EnvInsert n m) w =
     (case table w of
        None \<Rightarrow> w
      | Some rows \<Rightarrow>
          if has_name n rows then w
          else w\<lparr>table := Some (rows @ [new_row n m (clock w)])\<rparr>)"
| "env_apply (EnvDelete n) w =
     (case table w of
        None \<Rightarrow> w
      | Some rows \<Rightarrow> w\<lparr>table := Some (filter (\<lambda>r. \<not> sql_eq (row_name r) n) rows)\<rparr>)"
| "env_apply (EnvLoseConn c) w = w\<lparr>conns := lose_conn c (conns w)\<rparr>"
| "env_apply EnvServerDown w = w\<lparr>server_up := False\<rparr>"
| "env_apply EnvServerUp w = w\<lparr>server_up := True\<rparr>"
| "env_apply EnvTick w = w\<lparr>clock := Suc (clock w)\<rparr>"

definition env_step :: "world \<Rightarrow> world" where
  "env_step w = (case env w of [] \<Rightarrow> w | a # as \<Rightarrow> env_apply a (w\<lparr>env := as\<rparr>))"

text \<open>
  A statement whose strings leave their literals, or whose values the embedding does
  not follow, is still a statement on \<^verbatim>\<open>tooz_locks\<close>: the server rejects it or
  changes the rows of that table, in a way that depends on SQL the embedding does not
  interpret. Its reaction is therefore a parameter of the world: the next entry of
  \<open>injected\<close>, an error or the rows the table is left with. A script that has run out
  stands for a syntax error, which is what an unbalanced quote gives.
\<close>

definition react :: "world \<Rightarrow> (mysql_error + unit) \<times> world" where
  "react w =
     (case injected w of
        [] \<Rightarrow> (Inl ProgrammingError, w)
      | x # xs \<Rightarrow>
          (case x of
             Inl e \<Rightarrow> (Inl e, w\<lparr>injected := xs\<rparr>)
           | Inr rows \<Rightarrow> (Inr (), w\<lparr>injected := xs, table := Some rows\<rparr>)))"

text \<open>
  What the server answers to a statement that reaches it. MySQL error 1146 (no such
  table) and 1064 (syntax) are \<^verbatim>\<open>ProgrammingError\<close>, 1062 (duplicate entry) is
  \<^verbatim>\<open>IntegrityError\<close>, and 1050 (table exists), which the client library of the time
  maps to no class, is \<^verbatim>\<open>InternalError\<close>. Without the table every \<^verbatim>\<open>INSERT\<close> and
  \<^verbatim>\<open>DELETE\<close> is a \<^verbatim>\<open>ProgrammingError\<close>, well-formed or not. The \<^verbatim>\<open>UPDATE\<close> is
  rejected at its \<^verbatim>\<open>WHERE\<close>, before any formatted string is read.
\<close>

fun run_stmt :: "stmt \<Rightarrow> world \<Rightarrow> (mysql_error + unit) \<times> world" where
  "run_stmt (Insert n m) w =
     (case table w of
        None \<Rightarrow> (Inl ProgrammingError, w)
      | Some rows \<Rightarrow>
          (case sql_values n m rows of
             None \<Rightarrow> react w
           | Some (vn, vm) \<Rightarrow>
               if has_name vn rows then (Inl IntegrityError, w)
               else (Inr (), w\<lparr>table := Some (rows @ [new_row vn vm (clock w)])\<rparr>)))"
| "run_stmt CreateTable w =
     (case table w of
        None \<Rightarrow> (Inr (), w\<lparr>table := Some []\<rparr>)
      | Some rows \<Rightarrow> (Inl InternalError, w))"
| "run_stmt (Delete n m) w =
     (case table w of
        None \<Rightarrow> (Inl ProgrammingError, w)
      | Some rows \<Rightarrow>
          (case sql_values n m rows of
             None \<Rightarrow> react w
           | Some (vn, vm) \<Rightarrow>
               (Inr (),
                w\<lparr>table := Some (filter (\<lambda>r. \<not> (sql_eq (row_name r) vn \<and>
                                                sql_eq (created_by r) vm)) rows)\<rparr>)))"
| "run_stmt (UpdateWhere n m) w = (Inl ProgrammingError, w)"

text \<open>
  \<^verbatim>\<open>with conn as cur: cur.execute(stmt)\<close>: the environment moves, the statement is
  traced, and it reaches the server only over an open connection.
\<close>

definition execute :: "nat \<Rightarrow> stmt \<Rightarrow> world \<Rightarrow> (mysql_error + unit) \<times> world" where
  "execute c s w =
     (let w1 = env_step w;
          w2 = w1\<lparr>log := log w1 @ [EvExec c s]\<rparr>
      in if c < length (conns w2) then
           (case conns w2 ! c of
              ConnOpen \<Rightarrow> run_stmt s w2
            | ConnLost \<Rightarrow> (Inl OperationalError, w2)
            | ConnClosed \<Rightarrow> (Inl InterfaceError, w2))
         else (Inl InterfaceError, w2))"

text \<open>\<^verbatim>\<open>conn.connect()\<close>: re-establishes the connection when the server is reachable.\<close>

definition connect :: "nat \<Rightarrow> world \<Rightarrow> (mysql_error + unit) \<times> world" where
  "connect c w =
     (let w1 = env_step w;
          w2 = w1\<lparr>log := log w1 @ [EvConnect c]\<rparr>
      in if server_up w2 \<and> c < length (conns w2)
         then (Inr (), w2\<lparr>conns := (conns w2)[c := ConnOpen]\<rparr>)
         else (Inl OperationalError, w2))"

text \<open>\<^verbatim>\<open>conn.close()\<close>: raises on a connection already closed.\<close>

definition close :: "nat \<Rightarrow> world \<Rightarrow> (exn + unit) \<times> world" where
  "close c w =
     (let w1 = w\<lparr>log := log w @ [EvClose c]\<rparr>
      in if c < length (conns w1) \<and> conns w1 ! c \<noteq> ConnClosed
         then (Inr (), w1\<lparr>conns := (conns w1)[c := ConnClosed]\<rparr>)
         else (Inl (MySQLError OtherError), w1))"

text \<open>
  \<^verbatim>\<open>MySQLDriver.get_connection\<close>: a new connection to the server, or
  \<^verbatim>\<open>ToozConnectionError\<close>. The resolution of host, port and socket from the URL is left
  out: the connection reaches the one server of the model.
\<close>

definition get_connection :: "world \<Rightarrow> (exn + nat) \<times> world" where
  "get_connection w =
     (let w1 = env_step w
      in if server_up w1
         then (Inr (length (conns w1)),
               w1\<lparr>conns := conns w1 @ [ConnOpen], log := log w1 @ [EvOpen (length (conns w1))]\<rparr>)
         else (Inl (ToozConnectionError OperationalError), w1))"

subsection \<open>The retry decorator\<close>

text \<open>
  The \<^verbatim>\<open>blocking\<close> argument of \<^verbatim>\<open>acquire\<close>: \<^verbatim>\<open>True\<close>, \<^verbatim>\<open>False\<close> or a timeout,
  counted here in back-off periods. \<open>truthy\<close> is Python's \<^verbatim>\<open>if blocking:\<close>.
\<close>

datatype blocking = BlockingBool bool | BlockingFor nat

fun truthy :: "blocking \<Rightarrow> bool" where
  "truthy (BlockingBool b) = b"
| "truthy (BlockingFor t) = (t \<noteq> 0)"

text \<open>
  Modelled from the spec: the deadline that \<^verbatim>\<open>_retry.retry(stop_max_delay=blocking)\<close>
  derives from its argument. The module \<^verbatim>\<open>tooz/drivers/_retry.py\<close> is not among the
  sources; the spec gives "true = block until success, false = try once, or a numeric
  timeout". A timeout of 0 is false in Python (\<^verbatim>\<open>0 == False\<close>, and \<open>truthy\<close> above) and
  is taken with \<^verbatim>\<open>False\<close>: no deadline.
\<close>

fun deadline :: "blocking \<Rightarrow> nat option" where
  "deadline (BlockingBool b) = None"
| "deadline (BlockingFor 0) = None"
| "deadline (BlockingFor (Suc t)) = Some (Suc t)"

definition sleep :: "world \<Rightarrow> world" where
  "sleep w = w\<lparr>clock := Suc (clock w)\<rparr>"

text \<open>
  Modelled from the spec: the decorator \<^verbatim>\<open>_retry.retry\<close> of the missing module
  \<^verbatim>\<open>tooz/drivers/_retry.py\<close>. The decorated body is called again whenever it raises
  \<^verbatim>\<open>_retry.Retry\<close>, after a back-off sleep, "until the deadline elapses, at which point
  the loop surfaces a timeout failure"; any other exception and any result pass through.
  Without a deadline the loop need not end, so it runs on fuel: \<open>None\<close> is a loop still
  running after \<open>fuel\<close> calls of the body.
\<close>

fun retry ::
  "nat \<Rightarrow> nat option \<Rightarrow> (world \<Rightarrow> (exn + 'a) \<times> world) \<Rightarrow> world \<Rightarrow> ((exn + 'a) \<times> world) option"
where
  "retry 0 d body w = None"
| "retry (Suc fuel) d body w =
     (case body w of (r, w1) \<Rightarrow>
        if r = Inl Retry then
          (case d of
             None \<Rightarrow> retry fuel None body (sleep w1)
           | Some 0 \<Rightarrow> Some (Inl BlockingTimeout, w1)
           | Some (Suc t) \<Rightarrow> retry fuel (Some t) body (sleep w1))
        else Some (r, w1))"

subsection \<open>\<^verbatim>\<open>MySQLLock\<close>\<close>

text \<open>The property \<^verbatim>\<open>acquired\<close>: \<^verbatim>\<open>self in self.coord._acquired_locks\<close>.\<close>

definition acquired :: "lock \<Rightarrow> world \<Rightarrow> bool" where
  "acquired l w = (lock_id l \<in> set (map lock_id (acquired_locks w)))"

text \<open>
  The handler that \<^verbatim>\<open>acquire\<close>, \<^verbatim>\<open>release\<close> and \<^verbatim>\<open>heartbeat\<close> each write out for a
  store error: \<^verbatim>\<open>try: self._conn.connect(); raise _retry.Retry\<close> and, when the
  reconnect raises a \<^verbatim>\<open>MySQLError\<close>, \<^verbatim>\<open>ToozError\<close> with that cause.
\<close>

definition reconnect_or_fail :: "nat \<Rightarrow> world \<Rightarrow> (exn + 'a) \<times> world" where
  "reconnect_or_fail c w =
     (case connect c w of (r, w1) \<Rightarrow>
        (case r of
           Inr u \<Rightarrow> (Inl Retry, w1)
         | Inl e \<Rightarrow> (Inl (ToozError e), w1)))"

text \<open>
  The \<^verbatim>\<open>except\<close> clauses of \<^verbatim>\<open>_lock\<close> for a failed \<^verbatim>\<open>INSERT\<close>, in the order of the
  source: \<^verbatim>\<open>ProgrammingError\<close> creates the table and asks for a retry (\<^verbatim>\<open>ToozError\<close> when
  the \<^verbatim>\<open>CREATE TABLE\<close> raises a \<^verbatim>\<open>MySQLError\<close>), \<^verbatim>\<open>IntegrityError\<close> raises
  \<^verbatim>\<open>LockAcquireFailed\<close>, any other \<^verbatim>\<open>MySQLError\<close> reconnects.
\<close>

fun insert_failed :: "lock \<Rightarrow> mysql_error \<Rightarrow> world \<Rightarrow> (exn + bool) \<times> world" where
  "insert_failed l ProgrammingError w =
     (case execute (lock_conn l) CreateTable w of (r, w1) \<Rightarrow>
        (case r of
           Inr u \<Rightarrow> (Inl Retry, w1)
         | Inl e \<Rightarrow> (Inl (ToozError e), w1)))"
| "insert_failed l IntegrityError w = (Inl (LockAcquireFailed IntegrityError), w)"
| "insert_failed l e w = reconnect_or_fail (lock_conn l) w"

text \<open>
  The body \<^verbatim>\<open>_lock\<close> of \<^verbatim>\<open>acquire\<close>. Every path through its \<^verbatim>\<open>try\<close> statement returns
  or raises, so the two statements after it (\<^verbatim>\<open>if blocking: raise _retry.Retry\<close>,
  \<^verbatim>\<open>return False\<close>) are never reached and have no counterpart here.
\<close>

definition lock_body :: "blocking \<Rightarrow> lock \<Rightarrow> world \<Rightarrow> (exn + bool) \<times> world" where
  "lock_body b l w =
     (if acquired l w then
        (if truthy b then (Inl Retry, w) else (Inr False, w))
      else
        (case execute (lock_conn l) (Insert (lock_name l) (member_id w)) w of (r, w1) \<Rightarrow>
           (case r of
              Inr u \<Rightarrow> (Inr True, w1\<lparr>acquired_locks := acquired_locks w1 @ [l]\<rparr>)
            | Inl e \<Rightarrow> insert_failed l e w1)))"

definition acquire ::
  "nat \<Rightarrow> blocking \<Rightarrow> lock \<Rightarrow> world \<Rightarrow> ((exn + bool) \<times> world) option" where
  "acquire fuel b l w = retry fuel (deadline b) (lock_body b l) w"

text \<open>\<^verbatim>\<open>list.remove\<close>: drops the first occurrence, \<^verbatim>\<open>ValueError\<close> (\<open>None\<close>) without one.\<close>

fun list_remove :: "nat \<Rightarrow> lock list \<Rightarrow> lock list option" where
  "list_remove i [] = None"
| "list_remove i (x # xs) =
     (if lock_id x = i then Some xs else map_option ((#) x) (list_remove i xs))"

text \<open>\<^verbatim>\<open>release\<close> carries no retry decorator: what its body raises reaches the caller.\<close>

definition release :: "lock \<Rightarrow> world \<Rightarrow> (exn + bool) \<times> world" where
  "release l w =
     (if \<not> acquired l w then (Inr False, w)
      else
        (case execute (lock_conn l) (Delete (lock_name l) (member_id w)) w of (r, w1) \<Rightarrow>
           (case r of
              Inr u \<Rightarrow>
                (case list_remove (lock_id l) (acquired_locks w1) of
                   None \<Rightarrow> (Inl ValueError, w1)
                 | Some ls \<Rightarrow> (Inr True, w1\<lparr>acquired_locks := ls\<rparr>))
            | Inl e \<Rightarrow> reconnect_or_fail (lock_conn l) w1)))"

text \<open>
  \<^verbatim>\<open>heartbeat\<close> tests \<^verbatim>\<open>self.aquired\<close>, an attribute that \<^verbatim>\<open>MySQLLock\<close> does not define.
  What the lookup gives is a parameter \<open>attr\<close> of the body (an exception or a truth
  value); the statement goes to the coordinator's connection \<^verbatim>\<open>self.coord._conn\<close>, the
  reconnect to the handle's own.
\<close>

definition heartbeat_body ::
  "(lock \<Rightarrow> world \<Rightarrow> exn + bool) \<Rightarrow> lock \<Rightarrow> world \<Rightarrow> (exn + unit) \<times> world" where
  "heartbeat_body attr l w =
     (case attr l w of
        Inl x \<Rightarrow> (Inl x, w)
      | Inr held \<Rightarrow>
          if held then
            (case coord_conn w of
               None \<Rightarrow> (Inl AttributeError, w)
             | Some c \<Rightarrow>
                 (case execute c (UpdateWhere (lock_name l) (member_id w)) w of (r, w1) \<Rightarrow>
                    (case r of
                       Inr u \<Rightarrow> (Inr (), w1)
                     | Inl e \<Rightarrow> reconnect_or_fail (lock_conn l) w1)))
          else (Inr (), w))"

text \<open>
  Modelled from the spec: the base class \<^verbatim>\<open>locking.Lock\<close> (\<^verbatim>\<open>tooz/locking.py\<close>) is not
  among the sources; by the spec the held test of the heartbeat goes through "an
  inconsistently-named attribute", one the class hierarchy does not have, so the lookup
  raises \<^verbatim>\<open>AttributeError\<close>.
\<close>

definition aquired :: "lock \<Rightarrow> world \<Rightarrow> exn + bool" where
  "aquired l w = Inl AttributeError"

definition lock_heartbeat :: "lock \<Rightarrow> world \<Rightarrow> (exn + unit) \<times> world" where
  "lock_heartbeat l w = heartbeat_body aquired l w"

subsection \<open>\<^verbatim>\<open>MySQLDriver\<close>\<close>

text \<open>\<^verbatim>\<open>__init__\<close>: no connection yet, nothing held.\<close>

definition driver_init :: "string \<Rightarrow> world \<Rightarrow> world" where
  "driver_init m w = w\<lparr>member_id := m, coord_conn := None, acquired_locks := []\<rparr>"

text \<open>\<^verbatim>\<open>_start\<close>: the coordinator's connection, or \<^verbatim>\<open>ToozConnectionError\<close>.\<close>

definition start :: "world \<Rightarrow> (exn + unit) \<times> world" where
  "start w =
     (case get_connection w of (r, w1) \<Rightarrow>
        (case r of
           Inl x \<Rightarrow> (Inl x, w1)
         | Inr c \<Rightarrow> (Inr (), w1\<lparr>coord_conn := Some c\<rparr>)))"

text \<open>
  \<^verbatim>\<open>get_lock\<close> builds a \<^verbatim>\<open>MySQLLock\<close>, whose \<^verbatim>\<open>__init__\<close> calls
  \<^verbatim>\<open>MySQLDriver.get_connection\<close> with the URL and options of the coordinator.
\<close>

definition get_lock :: "string \<Rightarrow> world \<Rightarrow> (exn + lock) \<times> world" where
  "get_lock n w =
     (case get_connection w of (r, w1) \<Rightarrow>
        (case r of
           Inl x \<Rightarrow> (Inl x, w1)
         | Inr c \<Rightarrow>
             (Inr \<lparr>lock_id = next_lock w1, lock_name = n, lock_conn = c\<rparr>,
              w1\<lparr>next_lock := Suc (next_lock w1)\<rparr>)))"

text \<open>
  The environment and the store never touch the registry of held locks, and a release
  never lengthens it: the two loops over \<^verbatim>\<open>self._acquired_locks\<close> end.
\<close>

lemma env_step_acquired_locks: "acquired_locks (env_step w) = acquired_locks w"
proof (cases "env w")
  case Nil
  then show ?thesis by (simp add: env_step_def)
next
  case (Cons a as)
  then show ?thesis
    by (cases a) (simp_all add: env_step_def split: option.splits)
qed

lemma react_frame:
  "acquired_locks (snd (react w)) = acquired_locks w \<and> member_id (snd (react w)) = member_id w \<and>
   log (snd (react w)) = log w \<and> conns (snd (react w)) = conns w \<and>
   clock (snd (react w)) = clock w \<and> env (snd (react w)) = env w"
  by (simp add: react_def split: list.splits sum.splits)

lemma run_stmt_frame:
  "acquired_locks (snd (run_stmt s w)) = acquired_locks w \<and>
   member_id (snd (run_stmt s w)) = member_id w \<and>
   log (snd (run_stmt s w)) = log w \<and> conns (snd (run_stmt s w)) = conns w \<and>
   clock (snd (run_stmt s w)) = clock w \<and> env (snd (run_stmt s w)) = env w"
  by (cases s) (simp_all add: react_frame split: option.splits prod.splits)

lemma execute_acquired_locks: "acquired_locks (snd (execute c s w)) = acquired_locks w"
  by (simp add: execute_def Let_def env_step_acquired_locks run_stmt_frame
      split: conn_state.splits)

lemma connect_acquired_locks: "acquired_locks (snd (connect c w)) = acquired_locks w"
  by (simp add: connect_def Let_def env_step_acquired_locks)

lemma reconnect_or_fail_acquired_locks:
  "acquired_locks (snd (reconnect_or_fail c w)) = acquired_locks w"
  using connect_acquired_locks [of c w]
  by (auto simp: reconnect_or_fail_def split: prod.splits sum.splits)

lemma list_remove_length: "list_remove i xs = Some ys \<Longrightarrow> Suc (length ys) = length xs"
  by (induction xs arbitrary: ys) (auto split: if_splits)

lemma release_length:
  "length (acquired_locks (snd (release l w))) \<le> length (acquired_locks w)"
proof -
  obtain r w1 where ex: "execute (lock_conn l) (Delete (lock_name l) (member_id w)) w = (r, w1)"
    by (cases "execute (lock_conn l) (Delete (lock_name l) (member_id w)) w")
  have w1: "acquired_locks w1 = acquired_locks w"
    using execute_acquired_locks [of "lock_conn l" "Delete (lock_name l) (member_id w)" w] ex
    by simp
  show ?thesis
  proof (cases r)
    case (Inl e)
    then show ?thesis
      using ex w1 reconnect_or_fail_acquired_locks [of "lock_conn l" w1, where 'a = bool]
      by (simp add: release_def)
  next
    case (Inr u)
    then show ?thesis
      using ex w1 list_remove_length [of "lock_id l" "acquired_locks w"]
      by (auto simp: release_def split: option.splits)
  qed
qed

lemma heartbeat_body_acquired_locks:
  "acquired_locks (snd (heartbeat_body attr l w)) = acquired_locks w"
proof -
  have "acquired_locks (snd (case execute c s w of (r, w1) \<Rightarrow>
          (case r of Inr u \<Rightarrow> (Inr (), w1)
           | Inl e \<Rightarrow> (reconnect_or_fail (lock_conn l) w1 :: (exn + unit) \<times> world))))
        = acquired_locks w" for c s
    using execute_acquired_locks [of c s w]
      reconnect_or_fail_acquired_locks [of "lock_conn l" "snd (execute c s w)", where 'a = unit]
    by (auto split: prod.splits sum.splits)
  then show ?thesis
    by (simp add: heartbeat_body_def split: sum.splits option.splits)
qed

text \<open>
  \<^verbatim>\<open>for _lock in self._acquired_locks: try: _lock.release() except: continue\<close>. A
  Python list iterator is an index into the list as it is when the next element is asked
  for; the bare \<^verbatim>\<open>except\<close> drops whatever the release raises.
\<close>

function stop_loop :: "nat \<Rightarrow> world \<Rightarrow> world" where
  "stop_loop i w =
     (if i < length (acquired_locks w)
      then stop_loop (Suc i) (snd (release (acquired_locks w ! i) w))
      else w)"
  by pat_completeness auto
termination
proof (relation "measure (\<lambda>(i, w). length (acquired_locks w) - i)")
  show "wf (measure (\<lambda>(i, w). length (acquired_locks w) - i))" by simp
next
  fix i and w :: world
  assume "i < length (acquired_locks w)"
  then show "((Suc i, snd (release (acquired_locks w ! i) w)), (i, w))
        \<in> measure (\<lambda>(i, w). length (acquired_locks w) - i)"
    using release_length [of "acquired_locks w ! i" w] by simp
qed

declare stop_loop.simps [simp del]

text \<open>
  \<^verbatim>\<open>_stop\<close>: the loop, then \<^verbatim>\<open>self._conn.close()\<close>, whose exception nothing catches;
  a driver never started has no \<^verbatim>\<open>_conn\<close> attribute.
\<close>

definition stop :: "world \<Rightarrow> (exn + unit) \<times> world" where
  "stop w =
     (let w1 = stop_loop 0 w
      in case coord_conn w1 of
           None \<Rightarrow> (Inl AttributeError, w1)
         | Some c \<Rightarrow> close c w1)"

text \<open>
  \<^verbatim>\<open>MySQLDriver.heartbeat\<close>: the same loop around the heartbeat of each held lock,
  for any behaviour \<open>attr\<close> of the attribute lookup; the method returns \<^verbatim>\<open>None\<close> when
  the loop ends, so it is the final world.
\<close>

function heartbeat_loop :: "(lock \<Rightarrow> world \<Rightarrow> exn + bool) \<Rightarrow> nat \<Rightarrow> world \<Rightarrow> world" where
  "heartbeat_loop attr i w =
     (if i < length (acquired_locks w)
      then heartbeat_loop attr (Suc i) (snd (heartbeat_body attr (acquired_locks w ! i) w))
      else w)"
  by pat_completeness auto
termination
proof (relation "measure (\<lambda>(attr, i, w). length (acquired_locks w) - i)")
  show "wf (measure (\<lambda>(attr :: lock \<Rightarrow> world \<Rightarrow> exn + bool, i, w).
          length (acquired_locks w) - i))"
    by simp
next
  fix attr :: "lock \<Rightarrow> world \<Rightarrow> exn + bool" and i and w :: world
  assume "i < length (acquired_locks w)"
  then show "((attr, Suc i, snd (heartbeat_body attr (acquired_locks w ! i) w)), (attr, i, w))
        \<in> measure (\<lambda>(attr, i, w). length (acquired_locks w) - i)"
    by (simp add: heartbeat_body_acquired_locks)
qed

declare heartbeat_loop.simps [simp del]

definition driver_heartbeat_with ::
  "(lock \<Rightarrow> world \<Rightarrow> exn + bool) \<Rightarrow> world \<Rightarrow> (exn + unit) \<times> world" where
  "driver_heartbeat_with attr w = (Inr (), heartbeat_loop attr 0 w)"

definition driver_heartbeat :: "world \<Rightarrow> (exn + unit) \<times> world" where
  "driver_heartbeat w = driver_heartbeat_with aquired w"

text \<open>An event of the trace is a statement or a reconnect over connection \<open>c\<close>.\<close>

fun on_conn :: "nat \<Rightarrow> event \<Rightarrow> bool" where
  "on_conn c (EvExec c' s) = (c' = c)"
| "on_conn c (EvConnect c') = (c' = c)"
| "on_conn c (EvOpen c') = False"
| "on_conn c (EvClose c') = False"

subsection \<open>Example states\<close>

text \<open>
  A started coordinator \<open>m1\<close> on connection 0 with three lock handles on connections
  1, 2 and 3: holding nothing over an empty table, and holding all three.
\<close>

definition lock_a :: lock where
  "lock_a = \<lparr>lock_id = 0, lock_name = ''a'', lock_conn = 1\<rparr>"

definition lock_b :: lock where
  "lock_b = \<lparr>lock_id = 1, lock_name = ''b'', lock_conn = 2\<rparr>"

definition lock_c :: lock where
  "lock_c = \<lparr>lock_id = 2, lock_name = ''c'', lock_conn = 3\<rparr>"

definition idle_world :: world where
  "idle_world =
     \<lparr>table = Some [], clock = 5, injected = [], server_up = True,
      conns = [ConnOpen, ConnOpen, ConnOpen, ConnOpen],
      env = [], log = [], member_id = ''m1'', coord_conn = Some 0, acquired_locks = [],
      next_lock = 3\<rparr>"

definition holding_world :: world where
  "holding_world =
     idle_world
       \<lparr>table := Some [new_row ''a'' ''m1'' 2, new_row ''b'' ''m1'' 3, new_row ''c'' ''m1'' 4],
        acquired_locks := [lock_a, lock_b, lock_c]\<rparr>"

text \<open>
  Two handles whose names are not plain: \<^verbatim>\<open>it's\<close>, with a quote, and
  \<^verbatim>\<open>db\lock\<close>, with a backslash.
\<close>

definition quoted_lock :: lock where
  "quoted_lock = \<lparr>lock_id = 0, lock_name = ''it'' @ [sql_quote] @ ''s'', lock_conn = 1\<rparr>"

definition escaped_lock :: lock where
  "escaped_lock =
     \<lparr>lock_id = 0, lock_name = ''db'' @ [sql_backslash] @ ''lock'', lock_conn = 1\<rparr>"

text \<open>
  A coordinator whose member id is \<^verbatim>\<open>m\2\<close>. Its registry still holds a, whose row
  has gone and has since been inserted by the coordinator \<open>m2\<close>.
\<close>

definition alias_world :: world where
  "alias_world =
     idle_world\<lparr>member_id := ''m'' @ [sql_backslash] @ ''2'',
                  table := Some [new_row ''a'' ''m2'' 4],
                  acquired_locks := [lock_a]\<rparr>"

text \<open>
  A coordinator whose member id is \<^verbatim>\<open>' OR ''='\<close>. It holds a, inserted as
  \<^verbatim>\<open>values ('a', CURRENT_TIMESTAMP, '' OR ''='')\<close>, so with \<open>created_by\<close> 1; the
  coordinator \<open>m2\<close> holds b. Its delete reads
  \<^verbatim>\<open>WHERE `name` = 'a' AND `created_by` = '' OR ''=''\<close>, which is true of every row:
  the reaction of the server, in \<open>injected\<close>, is an empty table.
\<close>

definition injection_world :: world where
  "injection_world =
     idle_world\<lparr>member_id := [sql_quote] @ '' OR '' @ [sql_quote, sql_quote] @ ''='' @ [sql_quote],
                  table := Some [new_row ''a'' ''1'' 3, new_row ''b'' ''m2'' 4],
                  injected := [Inr []],
                  acquired_locks := [lock_a]\<rparr>"

text \<open>Nothing held, and the row of name a belongs to \<open>m2\<close>.\<close>

definition contended_world :: world where
  "contended_world = idle_world\<lparr>table := Some [new_row ''a'' ''m2'' 4]\<rparr>"

text \<open>A freshly provisioned store: no table and nobody else around.\<close>

definition bare_world :: world where
  "bare_world = idle_world\<lparr>table := None\<rparr>"

text \<open>
  No table yet, and another client that creates it between the first and the second
  statement of the coordinator.
\<close>

definition raced_world :: world where
  "raced_world = idle_world\<lparr>table := None, env := [EnvSkip, EnvCreateTable]\<rparr>"

text \<open>
  A server nobody has connected to, and what \<^verbatim>\<open>start\<close> and then \<^verbatim>\<open>get_lock\<close> make
  of it for a coordinator \<open>m1\<close>.
\<close>

definition fresh_world :: world where
  "fresh_world =
     \<lparr>table = Some [], clock = 0, injected = [], server_up = True, conns = [], env = [],
      log = [], member_id = [], coord_conn = None, acquired_locks = [], next_lock = 0\<rparr>"

definition started_world :: world where
  "started_world =
     fresh_world\<lparr>member_id := ''m1'', coord_conn := Some 0, conns := [ConnOpen],
                   log := [EvOpen 0]\<rparr>"

definition handle_a :: lock where
  "handle_a = \<lparr>lock_id = 0, lock_name = ''a'', lock_conn = 1\<rparr>"

definition handled_world :: world where
  "handled_world =
     started_world\<lparr>conns := [ConnOpen, ConnOpen], log := [EvOpen 0, EvOpen 1],
                     next_lock := 1\<rparr>"

section \<open>What the driver leaves alone\<close>

lemma env_step_nil: "env w = [] \<Longrightarrow> env_step w = w"
  by (simp add: env_step_def)

lemma env_step_frame:
  "member_id (env_step w) = member_id w"
  "log (env_step w) = log w"
  "coord_conn (env_step w) = coord_conn w"
  "length (conns (env_step w)) = length (conns w)"
proof -
  have "member_id (env_step w) = member_id w \<and> log (env_step w) = log w \<and>
        coord_conn (env_step w) = coord_conn w \<and> length (conns (env_step w)) = length (conns w)"
  proof (cases "env w")
    case Nil
    then show ?thesis by (simp add: env_step_def)
  next
    case (Cons a as)
    then show ?thesis
      by (cases a) (simp_all add: env_step_def lose_conn_def split: option.splits)
  qed
  then show "member_id (env_step w) = member_id w" "log (env_step w) = log w"
    "coord_conn (env_step w) = coord_conn w" "length (conns (env_step w)) = length (conns w)"
    by simp_all
qed

lemma execute_frame:
  "member_id (snd (execute c s w)) = member_id w"
  "log (snd (execute c s w)) = log w @ [EvExec c s]"
  by (simp_all add: execute_def Let_def env_step_frame run_stmt_frame split: conn_state.splits)

lemma connect_frame:
  "member_id (snd (connect c w)) = member_id w"
  "log (snd (connect c w)) = log w @ [EvConnect c]"
  by (simp_all add: connect_def Let_def env_step_frame)

lemma reconnect_or_fail_frame:
  "member_id (snd (reconnect_or_fail c w :: (exn + 'a) \<times> world)) = member_id w"
  "log (snd (reconnect_or_fail c w :: (exn + 'a) \<times> world)) = log w @ [EvConnect c]"
  using connect_frame [of c w]
  by (auto simp: reconnect_or_fail_def split: prod.splits sum.splits)

lemma sql_unescape_plain:
  "sql_quote \<notin> set s \<Longrightarrow> sql_backslash \<notin> set s \<Longrightarrow> sql_unescape s = Some s"
  by (induction s rule: sql_unescape.induct) auto

lemma sql_value_plain: "sql_plain s \<Longrightarrow> sql_value s = Some s"
  by (simp add: sql_plain_def sql_value_def sql_unescape_plain)

lemma sql_values_plain:
  "sql_plain n \<Longrightarrow> sql_plain m \<Longrightarrow> rows_ascii rows \<Longrightarrow> sql_values n m rows = Some (n, m)"
  by (simp add: sql_values_def sql_value_plain)

text \<open>An open connection hands the statement to the server.\<close>

lemma execute_alive:
  assumes "conn_alive (env_step w) c"
  shows "execute c s w = run_stmt s ((env_step w)\<lparr>log := log w @ [EvExec c s]\<rparr>)"
  using assms by (simp add: execute_def Let_def conn_alive_def env_step_frame)

text \<open>Over a connection that is down the statement fails, whatever it is.\<close>

lemma execute_dead:
  assumes "env w = []" and "c < length (conns w)" and "conns w ! c \<noteq> ConnOpen"
  shows "\<exists>e. e \<noteq> ProgrammingError \<and> e \<noteq> IntegrityError \<and>
             execute c s w = (Inl e, w\<lparr>log := log w @ [EvExec c s]\<rparr>)"
  using assms by (cases "conns w ! c") (simp_all add: execute_def Let_def env_step_nil)

lemma reconnect_or_fail_quiet_eq:
  assumes "env w = []" and "c < length (conns w)"
  shows "(reconnect_or_fail c w :: (exn + 'a) \<times> world) =
           (if server_up w
            then (Inl Retry, w\<lparr>log := log w @ [EvConnect c], conns := (conns w)[c := ConnOpen]\<rparr>)
            else (Inl (ToozError OperationalError), w\<lparr>log := log w @ [EvConnect c]\<rparr>))"
  using assms by (simp add: reconnect_or_fail_def connect_def Let_def env_step_nil)

section \<open>Acquisition\<close>

subsection \<open>A lock already in the registry\<close>

lemma lock_body_held:
  "acquired l w \<Longrightarrow>
     lock_body b l w = (if truthy b then (Inl Retry, w) else (Inr False, w))"
  by (simp add: lock_body_def)

lemma sleep_acquired: "acquired l (sleep w) = acquired l w"
  by (simp add: sleep_def acquired_def)

lemma retry_held_timeout:
  "acquired l w \<Longrightarrow> truthy b \<Longrightarrow> t < fuel \<Longrightarrow>
     retry fuel (Some t) (lock_body b l) w = Some (Inl BlockingTimeout, w\<lparr>clock := clock w + t\<rparr>)"
proof (induction t arbitrary: fuel w)
  case 0
  then obtain f where "fuel = Suc f" by (cases fuel) auto
  with 0 show ?case by (simp add: lock_body_held)
next
  case (Suc t)
  then obtain f where f: "fuel = Suc f" "t < f" by (cases fuel) auto
  from Suc.prems(1) have "acquired l (sleep w)" by (simp add: sleep_acquired)
  from Suc.IH [OF this Suc.prems(2) f(2)] Suc.prems(1,2) f(1) show ?case
    by (simp add: lock_body_held sleep_def)
qed

lemma retry_held_forever:
  "acquired l w \<Longrightarrow> truthy b \<Longrightarrow> retry fuel None (lock_body b l) w = None"
proof (induction fuel arbitrary: w)
  case 0
  then show ?case by simp
next
  case (Suc fuel)
  from Suc.prems(1) have "acquired l (sleep w)" by (simp add: sleep_acquired)
  from Suc.IH [OF this Suc.prems(2)] Suc.prems show ?case
    by (simp add: lock_body_held)
qed

text \<open>
  The path of a lock that this coordinator already holds: \<^verbatim>\<open>False\<close> at once when
  \<^verbatim>\<open>blocking\<close> is false, the blocking timeout once the deadline has passed when it is
  a timeout, no end when it is \<^verbatim>\<open>True\<close>.
\<close>

lemma acquire_held:
  assumes "acquired l w"
  shows "\<not> truthy b \<Longrightarrow> acquire (Suc fuel) b l w = Some (Inr False, w)"
    and "truthy b \<Longrightarrow> deadline b = Some t \<Longrightarrow> t < fuel \<Longrightarrow>
           acquire fuel b l w = Some (Inl BlockingTimeout, w\<lparr>clock := clock w + t\<rparr>)"
    and "truthy b \<Longrightarrow> deadline b = None \<Longrightarrow> acquire fuel b l w = None"
  using assms
  by (simp_all add: acquire_def lock_body_held retry_held_timeout retry_held_forever)

subsection \<open>A row of that name exists\<close>

lemma lock_body_duplicate:
  assumes "\<not> acquired l w" and "conn_alive (env_step w) (lock_conn l)"
    and "table (env_step w) = Some rows"
    and "sql_values (lock_name l) (member_id w) rows = Some (vn, vm)" and "has_name vn rows"
  shows "lock_body b l w =
           (Inl (LockAcquireFailed IntegrityError),
            (env_step w)\<lparr>log := log w @ [EvExec (lock_conn l) (Insert (lock_name l) (member_id w))]\<rparr>)"
  using assms by (simp add: lock_body_def execute_alive)

text \<open>
  The insert that finds a row of its name gets the uniqueness violation, and
  \<^verbatim>\<open>acquire\<close> raises \<^verbatim>\<open>LockAcquireFailed\<close> after that one statement, whatever
  \<^verbatim>\<open>blocking\<close> is.
\<close>

lemma acquire_duplicate:
  assumes "\<not> acquired l w" and "conn_alive (env_step w) (lock_conn l)"
    and "table (env_step w) = Some rows"
    and "sql_values (lock_name l) (member_id w) rows = Some (vn, vm)" and "has_name vn rows"
  shows "acquire (Suc fuel) b l w =
           Some (Inl (LockAcquireFailed IntegrityError),
                 (env_step w)\<lparr>log := log w @
                    [EvExec (lock_conn l) (Insert (lock_name l) (member_id w))]\<rparr>)"
  using lock_body_duplicate [OF assms, of b] by (simp add: acquire_def)

text \<open>
  C2. Acquiring a, whose row the member \<open>m2\<close> holds. Non-blocking, \<^verbatim>\<open>acquire\<close> raises
  \<^verbatim>\<open>LockAcquireFailed\<close>: it does not return \<^verbatim>\<open>False\<close>. Blocking with a timeout of 5
  back-off periods, while \<open>m2\<close> deletes its row right after the first insert:
  \<^verbatim>\<open>acquire\<close> raises \<^verbatim>\<open>LockAcquireFailed\<close> after that one insert; it neither retries
  nor waits for the deadline, and the delete of \<open>m2\<close> is still to come. The same with
  \<^verbatim>\<open>blocking=True\<close>.
\<close>

theorem acquire_duplicate_raises:
  "acquire 1 (BlockingBool False) lock_a contended_world =
     Some (Inl (LockAcquireFailed IntegrityError),
           contended_world\<lparr>log := [EvExec 1 (Insert ''a'' ''m1'')]\<rparr>)
   \<and> acquire 9 (BlockingFor 5) lock_a (contended_world\<lparr>env := [EnvSkip, EnvDelete ''a'']\<rparr>) =
     Some (Inl (LockAcquireFailed IntegrityError),
           contended_world\<lparr>env := [EnvDelete ''a''], log := [EvExec 1 (Insert ''a'' ''m1'')]\<rparr>)
   \<and> acquire 9 (BlockingBool True) lock_a (contended_world\<lparr>env := [EnvSkip, EnvDelete ''a'']\<rparr>) =
     Some (Inl (LockAcquireFailed IntegrityError),
           contended_world\<lparr>env := [EnvDelete ''a''], log := [EvExec 1 (Insert ''a'' ''m1'')]\<rparr>)"
  by code_simp

subsection \<open>A successful insert\<close>

lemma lock_body_fresh:
  assumes "\<not> acquired l w" and "env w = []" and "conn_alive w (lock_conn l)"
    and "table w = Some rows" and "rows_ascii rows"
    and "sql_plain (lock_name l)" and "sql_plain (member_id w)"
    and "\<not> has_name (lock_name l) rows"
  shows "lock_body b l w =
           (Inr True,
            w\<lparr>log := log w @ [EvExec (lock_conn l) (Insert (lock_name l) (member_id w))],
              table := Some (rows @ [\<lparr>row_name = lock_name l, created_at = clock w,
                                      updated_at = clock w, created_by = member_id w\<rparr>]),
              acquired_locks := acquired_locks w @ [l]\<rparr>)"
  using assms
  by (simp add: lock_body_def execute_alive env_step_nil sql_values_plain new_row_def)

text \<open>
  A lock that is not held, with a plain name and member id, over a live connection and
  a table without a row of that name, nobody interfering: \<^verbatim>\<open>acquire\<close> returns
  \<^verbatim>\<open>True\<close> after the one insert, the table has gained exactly the row
  \<open>(name, created_at = now, created_by = member_id)\<close>, and the lock is the last entry of
  the registry.
\<close>

lemma acquire_plain:
  assumes "\<not> acquired l w" and "env w = []" and "conn_alive w (lock_conn l)"
    and "table w = Some rows" and "rows_ascii rows"
    and "sql_plain (lock_name l)" and "sql_plain (member_id w)"
    and "\<not> has_name (lock_name l) rows"
  shows "acquire (Suc fuel) b l w =
           Some (Inr True,
                 w\<lparr>log := log w @ [EvExec (lock_conn l) (Insert (lock_name l) (member_id w))],
                   table := Some (rows @ [\<lparr>row_name = lock_name l, created_at = clock w,
                                           updated_at = clock w, created_by = member_id w\<rparr>]),
                   acquired_locks := acquired_locks w @ [l]\<rparr>)"
  using lock_body_fresh [OF assms, of b] by (simp add: acquire_def)

text \<open>
  C3. Acquiring a lock that is not held, over a live connection and an empty table,
  nobody interfering. With the name \<^verbatim>\<open>it's\<close> the insert is malformed; the handler takes
  the \<^verbatim>\<open>ProgrammingError\<close> for a missing table, its \<^verbatim>\<open>CREATE TABLE\<close> fails, and
  \<^verbatim>\<open>acquire\<close> raises \<^verbatim>\<open>ToozError\<close>: no row, no registry entry, no \<^verbatim>\<open>True\<close>. With the
  name \<^verbatim>\<open>db\lock\<close> \<^verbatim>\<open>acquire\<close> returns \<^verbatim>\<open>True\<close>, and the row it has inserted is named
  \<^verbatim>\<open>dblock\<close>.
\<close>

theorem acquire_unescaped_name:
  "acquire 2 (BlockingBool False) quoted_lock idle_world =
     Some (Inl (ToozError InternalError),
           idle_world\<lparr>log := [EvExec 1 (Insert (lock_name quoted_lock) ''m1''),
                               EvExec 1 CreateTable]\<rparr>)
   \<and> acquire 2 (BlockingBool False) escaped_lock idle_world =
     Some (Inr True,
           idle_world\<lparr>log := [EvExec 1 (Insert (lock_name escaped_lock) ''m1'')],
                       table := Some [\<lparr>row_name = ''dblock'', created_at = 5, updated_at = 5,
                                        created_by = ''m1''\<rparr>],
                       acquired_locks := [escaped_lock]\<rparr>)
   \<and> lock_name escaped_lock \<noteq> ''dblock''"
  by code_simp

subsection \<open>A missing table\<close>

lemma lock_body_no_table:
  assumes "\<not> acquired l w" and "env w = []" and "conn_alive w (lock_conn l)"
    and "table w = None"
  shows "lock_body b l w =
           (Inl Retry,
            w\<lparr>log := log w @ [EvExec (lock_conn l) (Insert (lock_name l) (member_id w)),
                              EvExec (lock_conn l) CreateTable],
              table := Some []\<rparr>)"
proof -
  let ?w1 = "w\<lparr>log := log w @ [EvExec (lock_conn l) (Insert (lock_name l) (member_id w))]\<rparr>"
  from assms have ins: "execute (lock_conn l) (Insert (lock_name l) (member_id w)) w
      = (Inl ProgrammingError, ?w1)"
    by (simp add: execute_alive env_step_nil)
  from assms have "conn_alive (env_step ?w1) (lock_conn l)" "env_step ?w1 = ?w1"
    by (simp_all add: env_step_nil conn_alive_def)
  with assms have "execute (lock_conn l) CreateTable ?w1 =
      (Inr (), ?w1\<lparr>log := log ?w1 @ [EvExec (lock_conn l) CreateTable], table := Some []\<rparr>)"
    by (simp add: execute_alive)
  with assms(1) ins show ?thesis by (simp add: lock_body_def)
qed

lemma deadline_not_0: "deadline b \<noteq> Some 0"
  by (cases b rule: deadline.cases) simp_all

lemma retry_once:
  assumes "body w = (Inl Retry, w1)" and "body (sleep w1) = (r, w2)" and "r \<noteq> Inl Retry"
    and "d \<noteq> Some 0"
  shows "retry (Suc (Suc fuel)) d body w = Some (r, w2)"
proof (cases d)
  case None
  with assms show ?thesis by simp
next
  case (Some t)
  with assms(4) obtain t' where "t = Suc t'" by (cases t) auto
  with Some assms show ?thesis by simp
qed

text \<open>
  C8, as the code has it. A lock that is not held, with a plain name and member id,
  against a store without the table, over a live connection and with no other client
  interfering: \<^verbatim>\<open>acquire\<close>, in every mode, sends the insert, creates the table, backs
  off, sends the insert again and returns \<^verbatim>\<open>True\<close>; the new table holds exactly the
  row \<open>(name, created_at = now, created_by = member_id)\<close> and the lock is in the
  registry. When the insert finds no table and the \<^verbatim>\<open>CREATE TABLE\<close> raises a store
  error, whatever it is, \<^verbatim>\<open>acquire\<close> raises \<^verbatim>\<open>ToozError\<close> with that cause and the insert
  is not sent again.
\<close>

theorem acquire_provisions_table:
  "(\<not> acquired l w \<and> env w = [] \<and> conn_alive w (lock_conn l) \<and> table w = None \<and>
    sql_plain (lock_name l) \<and> sql_plain (member_id w) \<longrightarrow>
      acquire (Suc (Suc fuel)) b l w =
        Some (Inr True,
              w\<lparr>clock := Suc (clock w),
                table := Some [\<lparr>row_name = lock_name l, created_at = Suc (clock w),
                                 updated_at = Suc (clock w), created_by = member_id w\<rparr>],
                log := log w @ [EvExec (lock_conn l) (Insert (lock_name l) (member_id w)),
                                EvExec (lock_conn l) CreateTable,
                                EvExec (lock_conn l) (Insert (lock_name l) (member_id w))],
                acquired_locks := acquired_locks w @ [l]\<rparr>))
   \<and> (\<not> acquired l w \<and>
       execute (lock_conn l) (Insert (lock_name l) (member_id w)) w = (Inl ProgrammingError, w1) \<and>
       execute (lock_conn l) CreateTable w1 = (Inl e, w2) \<longrightarrow>
      acquire (Suc fuel) b l w = Some (Inl (ToozError e), w2))"
proof (intro conjI impI)
  assume h: "\<not> acquired l w \<and> env w = [] \<and> conn_alive w (lock_conn l) \<and> table w = None \<and>
    sql_plain (lock_name l) \<and> sql_plain (member_id w)"
  let ?ins = "EvExec (lock_conn l) (Insert (lock_name l) (member_id w))"
  let ?w1 = "w\<lparr>log := log w @ [?ins, EvExec (lock_conn l) CreateTable], table := Some []\<rparr>"
  from h have first: "lock_body b l w = (Inl Retry, ?w1)"
    by (simp add: lock_body_no_table)
  from h have "\<not> acquired l (sleep ?w1)" "env (sleep ?w1) = []"
    "conn_alive (sleep ?w1) (lock_conn l)" "table (sleep ?w1) = Some []" "rows_ascii []"
    "sql_plain (lock_name l)" "sql_plain (member_id (sleep ?w1))"
    "\<not> has_name (lock_name l) []"
    by (simp_all add: sleep_def acquired_def conn_alive_def has_name_def rows_ascii_def)
  from lock_body_fresh [OF this, of b]
  have second: "lock_body b l (sleep ?w1) =
      (Inr True,
       w\<lparr>clock := Suc (clock w),
         table := Some [\<lparr>row_name = lock_name l, created_at = Suc (clock w),
                          updated_at = Suc (clock w), created_by = member_id w\<rparr>],
         log := log w @ [?ins, EvExec (lock_conn l) CreateTable, ?ins],
         acquired_locks := acquired_locks w @ [l]\<rparr>)"
    by (simp add: sleep_def)
  from retry_once [OF first second _ deadline_not_0]
  show "acquire (Suc (Suc fuel)) b l w =
        Some (Inr True,
              w\<lparr>clock := Suc (clock w),
                table := Some [\<lparr>row_name = lock_name l, created_at = Suc (clock w),
                                 updated_at = Suc (clock w), created_by = member_id w\<rparr>],
                log := log w @ [?ins, EvExec (lock_conn l) CreateTable, ?ins],
                acquired_locks := acquired_locks w @ [l]\<rparr>)"
    by (simp add: acquire_def)
next
  assume "\<not> acquired l w \<and>
       execute (lock_conn l) (Insert (lock_name l) (member_id w)) w = (Inl ProgrammingError, w1) \<and>
       execute (lock_conn l) CreateTable w1 = (Inl e, w2)"
  then show "acquire (Suc fuel) b l w = Some (Inl (ToozError e), w2)"
    by (simp add: acquire_def lock_body_def)
qed

text \<open>
  C8, as the claim has it, fails. When another client creates the table between the
  failed insert and the \<^verbatim>\<open>CREATE TABLE\<close> of this one, the server answers "table
  exists" and \<^verbatim>\<open>acquire\<close> raises \<^verbatim>\<open>ToozError\<close>: the race is not tolerated. And with the
  name \<^verbatim>\<open>it's\<close> the first \<^verbatim>\<open>acquire\<close> against a store without the table creates the
  table, finds its second insert malformed, fails to create the table again and raises
  \<^verbatim>\<open>ToozError\<close>.
\<close>

theorem acquire_create_race_raises:
  "acquire 2 (BlockingBool False) lock_a raced_world =
     Some (Inl (ToozError InternalError),
           raced_world\<lparr>env := [], table := Some [],
                        log := [EvExec 1 (Insert ''a'' ''m1''), EvExec 1 CreateTable]\<rparr>)
   \<and> acquire 3 (BlockingBool False) quoted_lock bare_world =
     Some (Inl (ToozError InternalError),
           bare_world\<lparr>clock := 6, table := Some [],
                       log := [EvExec 1 (Insert (lock_name quoted_lock) ''m1''),
                               EvExec 1 CreateTable,
                               EvExec 1 (Insert (lock_name quoted_lock) ''m1''),
                               EvExec 1 CreateTable]\<rparr>)"
  by code_simp

theorem acquire_provisions_table_witness:
  "\<not> acquired lock_a bare_world
   \<and> env bare_world = []
   \<and> conn_alive bare_world (lock_conn lock_a)
   \<and> table bare_world = None
   \<and> sql_plain (lock_name lock_a)
   \<and> sql_plain (member_id bare_world)
   \<and> acquire 2 (BlockingFor 0) lock_a bare_world =
        Some (Inr True,
              bare_world\<lparr>clock := 6,
                          table := Some [\<lparr>row_name = ''a'', created_at = 6, updated_at = 6,
                                           created_by = ''m1''\<rparr>],
                          log := [EvExec 1 (Insert ''a'' ''m1''), EvExec 1 CreateTable,
                                  EvExec 1 (Insert ''a'' ''m1'')],
                          acquired_locks := [lock_a]\<rparr>)
   \<and> \<not> acquired lock_a raced_world
   \<and> execute (lock_conn lock_a) (Insert (lock_name lock_a) (member_id raced_world)) raced_world =
        (Inl ProgrammingError,
         raced_world\<lparr>env := [EnvCreateTable], log := [EvExec 1 (Insert ''a'' ''m1'')]\<rparr>)
   \<and> execute (lock_conn lock_a) CreateTable
        (raced_world\<lparr>env := [EnvCreateTable], log := [EvExec 1 (Insert ''a'' ''m1'')]\<rparr>) =
        (Inl InternalError,
         raced_world\<lparr>env := [], table := Some [],
                      log := [EvExec 1 (Insert ''a'' ''m1''), EvExec 1 CreateTable]\<rparr>)
   \<and> acquire 1 (BlockingBool True) lock_a raced_world =
        Some (Inl (ToozError InternalError),
              raced_world\<lparr>env := [], table := Some [],
                           log := [EvExec 1 (Insert ''a'' ''m1''), EvExec 1 CreateTable]\<rparr>)"
proof -
  have a: "\<not> acquired lock_a bare_world \<and> env bare_world = [] \<and>
           conn_alive bare_world (lock_conn lock_a) \<and> table bare_world = None \<and>
           sql_plain (lock_name lock_a) \<and> sql_plain (member_id bare_world)"
    by code_simp
  have b: "\<not> acquired lock_a raced_world"
    by code_simp
  have c: "execute (lock_conn lock_a) (Insert (lock_name lock_a) (member_id raced_world)) raced_world =
        (Inl ProgrammingError,
         raced_world\<lparr>env := [EnvCreateTable], log := [EvExec 1 (Insert ''a'' ''m1'')]\<rparr>)"
    by code_simp
  have d: "execute (lock_conn lock_a) CreateTable
        (raced_world\<lparr>env := [EnvCreateTable], log := [EvExec 1 (Insert ''a'' ''m1'')]\<rparr>) =
        (Inl InternalError,
         raced_world\<lparr>env := [], table := Some [],
                      log := [EvExec 1 (Insert ''a'' ''m1''), EvExec 1 CreateTable]\<rparr>)"
    by code_simp
  from acquire_provisions_table
    [where l = lock_a and w = bare_world and b = "BlockingFor 0" and fuel = 0] a
  have e1: "acquire 2 (BlockingFor 0) lock_a bare_world =
        Some (Inr True,
              bare_world\<lparr>clock := 6,
                          table := Some [\<lparr>row_name = ''a'', created_at = 6, updated_at = 6,
                                           created_by = ''m1''\<rparr>],
                          log := [EvExec 1 (Insert ''a'' ''m1''), EvExec 1 CreateTable,
                                  EvExec 1 (Insert ''a'' ''m1'')],
                          acquired_locks := [lock_a]\<rparr>)"
    by (simp add: bare_world_def idle_world_def lock_a_def numeral_2_eq_2)
  from acquire_provisions_table
    [where l = lock_a and w = raced_world and b = "BlockingBool True" and fuel = 0] b c d
  have e2: "acquire 1 (BlockingBool True) lock_a raced_world =
        Some (Inl (ToozError InternalError),
              raced_world\<lparr>env := [], table := Some [],
                           log := [EvExec 1 (Insert ''a'' ''m1''), EvExec 1 CreateTable]\<rparr>)"
    by simp
  from a b c d e1 e2 show ?thesis by blast
qed

section \<open>Release\<close>

lemma list_remove_Some:
  "i \<in> set (map lock_id xs) \<Longrightarrow> \<exists>ys. list_remove i xs = Some ys"
  by (induction xs) auto

text \<open>
  A lock that is not in the registry: \<^verbatim>\<open>release\<close> returns \<^verbatim>\<open>False\<close> and the state is
  as it was.
\<close>

lemma release_not_held: "\<not> acquired l w \<Longrightarrow> release l w = (Inr False, w)"
  by (simp add: release_def)

text \<open>
  A lock in the registry, with a plain name and member id, over a live connection and
  a table the embedding follows, nobody interfering: \<^verbatim>\<open>release\<close> returns \<^verbatim>\<open>True\<close>, the
  table has lost exactly the rows whose name and \<open>created_by\<close> the server finds equal to
  the lock's name and the member id, and the first registry entry of the lock is gone.
\<close>

lemma release_plain:
  assumes "acquired l w" and "env w = []" and "conn_alive w (lock_conn l)"
    and "table w = Some rows" and "rows_ascii rows"
    and "sql_plain (lock_name l)" and "sql_plain (member_id w)"
  shows "\<exists>ls. list_remove (lock_id l) (acquired_locks w) = Some ls \<and>
           release l w =
             (Inr True,
              w\<lparr>log := log w @ [EvExec (lock_conn l) (Delete (lock_name l) (member_id w))],
                table := Some (filter (\<lambda>r. \<not> (sql_eq (row_name r) (lock_name l) \<and>
                                              sql_eq (created_by r) (member_id w))) rows),
                acquired_locks := ls\<rparr>)"
proof -
  from assms(1) obtain ls where ls: "list_remove (lock_id l) (acquired_locks w) = Some ls"
    using list_remove_Some [of "lock_id l" "acquired_locks w"] by (auto simp: acquired_def)
  with assms show ?thesis
    by (simp add: release_def execute_alive env_step_nil sql_values_plain)
qed

text \<open>
  C4. Two releases that delete the row of another coordinator. The coordinator
  \<^verbatim>\<open>m\2\<close> releases a, which its registry still holds while the row of that name is the
  one the coordinator \<open>m2\<close> inserted: the server reads \<^verbatim>\<open>'m\2'\<close> as \<open>m2\<close>, and the row
  of \<open>m2\<close> is deleted. The coordinator \<^verbatim>\<open>' OR ''='\<close> releases a, which it holds: its
  \<^verbatim>\<open>WHERE\<close> clause is true of every row, and the row b of \<open>m2\<close> is deleted with it.
\<close>

theorem release_deletes_foreign_row:
  "table alias_world =
     Some [\<lparr>row_name = ''a'', created_at = 4, updated_at = 4, created_by = ''m2''\<rparr>]
   \<and> member_id alias_world \<noteq> ''m2''
   \<and> release lock_a alias_world =
       (Inr True,
        alias_world\<lparr>log := [EvExec 1 (Delete ''a'' (member_id alias_world))],
                     table := Some [], acquired_locks := []\<rparr>)
   \<and> table injection_world =
       Some [\<lparr>row_name = ''a'', created_at = 3, updated_at = 3, created_by = ''1''\<rparr>,
             \<lparr>row_name = ''b'', created_at = 4, updated_at = 4, created_by = ''m2''\<rparr>]
   \<and> release lock_a injection_world =
       (Inr True,
        injection_world\<lparr>log := [EvExec 1 (Delete ''a'' (member_id injection_world))],
                         injected := [], table := Some [], acquired_locks := []\<rparr>)"
  by code_simp

section \<open>Store errors\<close>

lemma insert_failed_other:
  "e \<noteq> ProgrammingError \<Longrightarrow> e \<noteq> IntegrityError \<Longrightarrow>
     insert_failed l e w = reconnect_or_fail (lock_conn l) w"
  by (cases e) simp_all

lemma lock_body_dead:
  assumes "\<not> acquired l w" and "env w = []" and "lock_conn l < length (conns w)"
    and "conns w ! lock_conn l \<noteq> ConnOpen"
  shows "lock_body b l w =
           (if server_up w
            then (Inl Retry,
                  w\<lparr>log := log w @ [EvExec (lock_conn l) (Insert (lock_name l) (member_id w)),
                                    EvConnect (lock_conn l)],
                    conns := (conns w)[lock_conn l := ConnOpen]\<rparr>)
            else (Inl (ToozError OperationalError),
                  w\<lparr>log := log w @ [EvExec (lock_conn l) (Insert (lock_name l) (member_id w)),
                                    EvConnect (lock_conn l)]\<rparr>))"
proof -
  let ?s = "Insert (lock_name l) (member_id w)"
  from execute_dead [OF assms(2,3,4), of ?s] obtain e where
    e: "e \<noteq> ProgrammingError" "e \<noteq> IntegrityError"
    and ex: "execute (lock_conn l) ?s w = (Inl e, w\<lparr>log := log w @ [EvExec (lock_conn l) ?s]\<rparr>)"
    by blast
  from assms(2,3) have
    "(reconnect_or_fail (lock_conn l) (w\<lparr>log := log w @ [EvExec (lock_conn l) ?s]\<rparr>)
        :: (exn + bool) \<times> world) =
       (if server_up w
        then (Inl Retry,
              w\<lparr>log := log w @ [EvExec (lock_conn l) ?s, EvConnect (lock_conn l)],
                conns := (conns w)[lock_conn l := ConnOpen]\<rparr>)
        else (Inl (ToozError OperationalError),
              w\<lparr>log := log w @ [EvExec (lock_conn l) ?s, EvConnect (lock_conn l)]\<rparr>))"
    by (simp add: reconnect_or_fail_quiet_eq)
  with assms(1) e ex show ?thesis
    by (simp add: lock_body_def insert_failed_other)
qed

text \<open>
  The store-error path of \<^verbatim>\<open>acquire\<close>: the insert over a connection that is down
  fails, one reconnect follows; when it succeeds the insert is sent again and the lock is
  taken, when it fails the caller gets \<^verbatim>\<open>ToozError\<close> with the cause.
\<close>

lemma acquire_reconnects:
  assumes "\<not> acquired l w" and "env w = []" and "lock_conn l < length (conns w)"
    and "conns w ! lock_conn l \<noteq> ConnOpen"
    and "table w = Some rows" and "rows_ascii rows"
    and "sql_plain (lock_name l)" and "sql_plain (member_id w)"
    and "\<not> has_name (lock_name l) rows"
  shows "server_up w \<Longrightarrow>
           acquire (Suc (Suc fuel)) b l w =
             Some (Inr True,
                   w\<lparr>clock := Suc (clock w),
                     conns := (conns w)[lock_conn l := ConnOpen],
                     log := log w @ [EvExec (lock_conn l) (Insert (lock_name l) (member_id w)),
                                     EvConnect (lock_conn l),
                                     EvExec (lock_conn l) (Insert (lock_name l) (member_id w))],
                     table := Some (rows @ [\<lparr>row_name = lock_name l,
                                             created_at = Suc (clock w),
                                             updated_at = Suc (clock w),
                                             created_by = member_id w\<rparr>]),
                     acquired_locks := acquired_locks w @ [l]\<rparr>)"
    and "\<not> server_up w \<Longrightarrow>
           acquire (Suc fuel) b l w =
             Some (Inl (ToozError OperationalError),
                   w\<lparr>log := log w @ [EvExec (lock_conn l) (Insert (lock_name l) (member_id w)),
                                     EvConnect (lock_conn l)]\<rparr>)"
proof -
  let ?ins = "EvExec (lock_conn l) (Insert (lock_name l) (member_id w))"
  let ?w1 = "w\<lparr>log := log w @ [?ins, EvConnect (lock_conn l)],
               conns := (conns w)[lock_conn l := ConnOpen]\<rparr>"
  show "acquire (Suc (Suc fuel)) b l w =
             Some (Inr True,
                   w\<lparr>clock := Suc (clock w),
                     conns := (conns w)[lock_conn l := ConnOpen],
                     log := log w @ [?ins, EvConnect (lock_conn l), ?ins],
                     table := Some (rows @ [\<lparr>row_name = lock_name l,
                                             created_at = Suc (clock w),
                                             updated_at = Suc (clock w),
                                             created_by = member_id w\<rparr>]),
                     acquired_locks := acquired_locks w @ [l]\<rparr>)"
    if up: "server_up w"
  proof -
    from up lock_body_dead [OF assms(1-4), of b]
    have first: "lock_body b l w = (Inl Retry, ?w1)" by simp
    from assms have "\<not> acquired l (sleep ?w1)" "env (sleep ?w1) = []"
      "conn_alive (sleep ?w1) (lock_conn l)" "table (sleep ?w1) = Some rows" "rows_ascii rows"
      "sql_plain (lock_name l)" "sql_plain (member_id (sleep ?w1))"
      by (simp_all add: sleep_def acquired_def conn_alive_def)
    from lock_body_fresh [OF this assms(9), of b]
    have second: "lock_body b l (sleep ?w1) =
        (Inr True,
         w\<lparr>clock := Suc (clock w),
           conns := (conns w)[lock_conn l := ConnOpen],
           log := log w @ [?ins, EvConnect (lock_conn l), ?ins],
           table := Some (rows @ [\<lparr>row_name = lock_name l,
                                   created_at = Suc (clock w),
                                   updated_at = Suc (clock w),
                                   created_by = member_id w\<rparr>]),
           acquired_locks := acquired_locks w @ [l]\<rparr>)"
      by (simp add: sleep_def)
    from retry_once [OF first second _ deadline_not_0] show ?thesis
      by (simp add: acquire_def)
  qed
  show "acquire (Suc fuel) b l w =
             Some (Inl (ToozError OperationalError),
                   w\<lparr>log := log w @ [?ins, EvConnect (lock_conn l)]\<rparr>)"
    if "\<not> server_up w"
    using that lock_body_dead [OF assms(1-4), of b] by (simp add: acquire_def)
qed

text \<open>
  The same path of \<^verbatim>\<open>release\<close>: one reconnect as well, and \<^verbatim>\<open>ToozError\<close> when it
  fails; when it succeeds the outcome is the \<^verbatim>\<open>Retry\<close> signal itself, with the row
  and the registry as they were.
\<close>

lemma release_store_error:
  assumes "acquired l w" and "env w = []" and "lock_conn l < length (conns w)"
    and "conns w ! lock_conn l \<noteq> ConnOpen"
  shows "release l w =
           (if server_up w
            then (Inl Retry,
                  w\<lparr>log := log w @ [EvExec (lock_conn l) (Delete (lock_name l) (member_id w)),
                                    EvConnect (lock_conn l)],
                    conns := (conns w)[lock_conn l := ConnOpen]\<rparr>)
            else (Inl (ToozError OperationalError),
                  w\<lparr>log := log w @ [EvExec (lock_conn l) (Delete (lock_name l) (member_id w)),
                                    EvConnect (lock_conn l)]\<rparr>))"
proof -
  let ?s = "Delete (lock_name l) (member_id w)"
  from execute_dead [OF assms(2,3,4), of ?s] obtain e where
    ex: "execute (lock_conn l) ?s w = (Inl e, w\<lparr>log := log w @ [EvExec (lock_conn l) ?s]\<rparr>)"
    by blast
  from assms(2,3) have
    "(reconnect_or_fail (lock_conn l) (w\<lparr>log := log w @ [EvExec (lock_conn l) ?s]\<rparr>)
        :: (exn + bool) \<times> world) =
       (if server_up w
        then (Inl Retry,
              w\<lparr>log := log w @ [EvExec (lock_conn l) ?s, EvConnect (lock_conn l)],
                conns := (conns w)[lock_conn l := ConnOpen]\<rparr>)
        else (Inl (ToozError OperationalError),
              w\<lparr>log := log w @ [EvExec (lock_conn l) ?s, EvConnect (lock_conn l)]\<rparr>))"
    by (simp add: reconnect_or_fail_quiet_eq)
  with assms(1) ex show ?thesis
    by (simp add: release_def)
qed

text \<open>
  C7. Releasing the held lock a when its connection has been lost and the server is
  reachable: the delete fails, the one reconnect succeeds, and the \<^verbatim>\<open>Retry\<close> signal
  reaches the caller. The delete is not sent again, the row and the registry entry stay.
\<close>

theorem release_reconnect_raises_retry:
  "release lock_a (holding_world\<lparr>conns := [ConnOpen, ConnLost, ConnOpen, ConnOpen]\<rparr>) =
     (Inl Retry,
      holding_world\<lparr>log := [EvExec 1 (Delete ''a'' ''m1''), EvConnect 1]\<rparr>)"
  by code_simp

section \<open>Shutdown\<close>

text \<open>
  C5. Stopping a coordinator that holds the locks a, b and c, acquired in this order,
  over a healthy connection: a and c are released, b is passed over. The delete of b is
  never sent, its row stays in the table and it stays in the registry; the coordinator's
  connection is closed after the releases.
\<close>

theorem stop_skips_lock:
  "stop holding_world =
     (Inr (),
      holding_world
        \<lparr>table := Some [new_row ''b'' ''m1'' 3],
         log := [EvExec 1 (Delete ''a'' ''m1''), EvExec 3 (Delete ''c'' ''m1''), EvClose 0],
         conns := [ConnClosed, ConnOpen, ConnOpen, ConnOpen],
         acquired_locks := [lock_b]\<rparr>)"
  by code_simp

section \<open>The heartbeat\<close>

lemma heartbeat_loop_fold:
  "heartbeat_loop attr i w =
     fold (\<lambda>l v. snd (heartbeat_body attr l v)) (drop i (acquired_locks w)) w"
proof (induction attr i w rule: heartbeat_loop.induct)
  case (1 attr i w)
  show ?case
  proof (cases "i < length (acquired_locks w)")
    case True
    then have d: "drop i (acquired_locks w) = acquired_locks w ! i # drop (Suc i) (acquired_locks w)"
      by (simp add: Cons_nth_drop_Suc)
    from True 1 show ?thesis
      by (subst heartbeat_loop.simps) (simp add: d heartbeat_body_acquired_locks)
  next
    case False
    then show ?thesis by (subst heartbeat_loop.simps) simp
  qed
qed

text \<open>
  C10. \<^verbatim>\<open>MySQLDriver.heartbeat\<close> returns normally from every state and whatever the
  heartbeat of a lock does: for any behaviour of the attribute lookup, so for any
  exception of a lock's heartbeat (the lookup's own, \<^verbatim>\<open>ToozError\<close>, \<^verbatim>\<open>Retry\<close>), the
  result is \<^verbatim>\<open>None\<close> and the final state is that of running the heartbeat of every held
  lock in turn, each outcome dropped; the registry is as before. With the lookup of the
  source, which raises for every lock, nothing changes at all.
\<close>

theorem driver_heartbeat_never_raises:
  "driver_heartbeat_with attr w =
     (Inr (), fold (\<lambda>l v. snd (heartbeat_body attr l v)) (acquired_locks w) w)
   \<and> acquired_locks (snd (driver_heartbeat_with attr w)) = acquired_locks w
   \<and> driver_heartbeat w = (Inr (), w)"
proof -
  have same: "acquired_locks (fold (\<lambda>l v. snd (heartbeat_body attr l v)) ls v) = acquired_locks v"
    for ls v
    by (induction ls arbitrary: v) (simp_all add: heartbeat_body_acquired_locks)
  have idle: "fold (\<lambda>l v. snd (heartbeat_body aquired l v)) ls v = v" for ls v
    by (induction ls) (simp_all add: heartbeat_body_def aquired_def)
  show ?thesis
    by (simp add: driver_heartbeat_with_def driver_heartbeat_def heartbeat_loop_fold same idle)
qed

text \<open>
  Whatever the lookup gives, a lock's heartbeat leaves the table as the environment
  has it: its statement has no \<^verbatim>\<open>SET\<close> clause and the server rejects it.
\<close>

lemma heartbeat_body_table:
  assumes "env w = []"
  shows "table (snd (heartbeat_body attr l w)) = table w"
proof -
  have ex: "table (snd (execute c (UpdateWhere n m) w)) = table w
            \<and> env (snd (execute c (UpdateWhere n m) w)) = []" for c n m
    using assms by (simp add: execute_def Let_def env_step_nil split: conn_state.splits)
  have rc: "table (snd (reconnect_or_fail c v :: (exn + unit) \<times> world)) = table v"
    if "env v = []" for c v
    using that
    by (simp add: reconnect_or_fail_def connect_def Let_def env_step_nil split: sum.splits)
  have "table (snd (case execute c (UpdateWhere n m) w of (r, w1) \<Rightarrow>
          (case r of Inr u \<Rightarrow> (Inr (), w1)
           | Inl e \<Rightarrow> (reconnect_or_fail (lock_conn l) w1 :: (exn + unit) \<times> world))))
        = table w" for c n m
    using ex [of c n m] rc [of "snd (execute c (UpdateWhere n m) w)" "lock_conn l"]
    by (auto split: prod.splits sum.splits)
  then show ?thesis
    by (simp add: heartbeat_body_def split: sum.splits option.splits)
qed

text \<open>
  C6. The heartbeat of a lock raises \<^verbatim>\<open>AttributeError\<close> and changes nothing, for every
  lock in every state, held or not: it neither refreshes \<open>updated_at\<close> of a held lock
  nor returns normally for one that is not held.
\<close>

theorem lock_heartbeat_raises: "lock_heartbeat l w = (Inl AttributeError, w)"
  by (simp add: lock_heartbeat_def heartbeat_body_def aquired_def)

section \<open>Connections\<close>

lemma get_connection_new:
  assumes "get_connection w = (Inr c, w')"
  shows "c = length (conns w) \<and> conn_alive w' c \<and> log w' = log w @ [EvOpen c] \<and>
         coord_conn w' = coord_conn w \<and> length (conns w') = Suc (length (conns w))"
  using assms
  by (auto simp: get_connection_def Let_def conn_alive_def env_step_frame nth_append
      split: if_splits)

lemma insert_failed_log:
  "\<exists>evs. log (snd (insert_failed l e w)) = log w @ evs \<and> (\<forall>x\<in>set evs. on_conn (lock_conn l) x)"
proof (cases e)
  case ProgrammingError
  have "log (snd (insert_failed l ProgrammingError w)) = log w @ [EvExec (lock_conn l) CreateTable]"
    using execute_frame(2) [of "lock_conn l" CreateTable w]
    by (auto split: prod.splits sum.splits)
  with ProgrammingError show ?thesis by simp
next
  case IntegrityError
  then show ?thesis by simp
next
  case OperationalError
  then show ?thesis
    using reconnect_or_fail_frame(2) [of "lock_conn l" w, where 'a = bool] by simp
next
  case InterfaceError
  then show ?thesis
    using reconnect_or_fail_frame(2) [of "lock_conn l" w, where 'a = bool] by simp
next
  case InternalError
  then show ?thesis
    using reconnect_or_fail_frame(2) [of "lock_conn l" w, where 'a = bool] by simp
next
  case OtherError
  then show ?thesis
    using reconnect_or_fail_frame(2) [of "lock_conn l" w, where 'a = bool] by simp
qed

lemma lock_body_log:
  "\<exists>evs. log (snd (lock_body b l w)) = log w @ evs \<and> (\<forall>x\<in>set evs. on_conn (lock_conn l) x)"
proof (cases "acquired l w")
  case True
  then show ?thesis by (simp add: lock_body_def)
next
  case False
  let ?s = "Insert (lock_name l) (member_id w)"
  obtain r w1 where ex: "execute (lock_conn l) ?s w = (r, w1)"
    by (cases "execute (lock_conn l) ?s w")
  then have w1: "log w1 = log w @ [EvExec (lock_conn l) ?s]"
    using execute_frame(2) [of "lock_conn l" ?s w] by simp
  show ?thesis
  proof (cases r)
    case (Inr u)
    with False ex w1 show ?thesis by (simp add: lock_body_def)
  next
    case (Inl e)
    from insert_failed_log [of l e w1] obtain evs where
      "log (snd (insert_failed l e w1)) = log w1 @ evs" "\<forall>x\<in>set evs. on_conn (lock_conn l) x"
      by blast
    with False ex w1 Inl
    have "log (snd (lock_body b l w)) = log w @ (EvExec (lock_conn l) ?s # evs) \<and>
          (\<forall>x\<in>set (EvExec (lock_conn l) ?s # evs). on_conn (lock_conn l) x)"
      by (simp add: lock_body_def)
    then show ?thesis by blast
  qed
qed

lemma retry_lock_body_log:
  "retry fuel d (lock_body b l) w = Some (r, w') \<Longrightarrow>
     \<exists>evs. log w' = log w @ evs \<and> (\<forall>x\<in>set evs. on_conn (lock_conn l) x)"
proof (induction fuel arbitrary: d w)
  case 0
  then show ?case by simp
next
  case (Suc fuel)
  obtain x w1 where body: "lock_body b l w = (x, w1)"
    by (cases "lock_body b l w")
  from lock_body_log [of b l w] body obtain evs where
    evs: "log w1 = log w @ evs" "\<forall>x\<in>set evs. on_conn (lock_conn l) x"
    by auto
  show ?case
  proof (cases "x = Inl Retry")
    case False
    with Suc.prems body have "w' = w1" by simp
    with evs show ?thesis by blast
  next
    case True
    show ?thesis
    proof (cases "d = Some 0")
      case True
      with \<open>x = Inl Retry\<close> Suc.prems body have "w' = w1" by simp
      with evs show ?thesis by blast
    next
      case False
      with \<open>x = Inl Retry\<close> Suc.prems body obtain d' where
        "retry fuel d' (lock_body b l) (sleep w1) = Some (r, w')"
        by (auto split: option.splits nat.splits)
      from Suc.IH [OF this] obtain evs' where
        "log w' = log (sleep w1) @ evs'" "\<forall>x\<in>set evs'. on_conn (lock_conn l) x"
        by blast
      with evs have "log w' = log w @ (evs @ evs') \<and>
          (\<forall>x\<in>set (evs @ evs'). on_conn (lock_conn l) x)"
        by (auto simp: sleep_def)
      then show ?thesis by blast
    qed
  qed
qed

lemma release_log:
  "\<exists>evs. log (snd (release l w)) = log w @ evs \<and> (\<forall>x\<in>set evs. on_conn (lock_conn l) x)"
proof (cases "acquired l w")
  case False
  then show ?thesis by (simp add: release_def)
next
  case True
  let ?s = "Delete (lock_name l) (member_id w)"
  obtain r w1 where ex: "execute (lock_conn l) ?s w = (r, w1)"
    by (cases "execute (lock_conn l) ?s w")
  then have w1: "log w1 = log w @ [EvExec (lock_conn l) ?s]"
    using execute_frame(2) [of "lock_conn l" ?s w] by simp
  show ?thesis
  proof (cases r)
    case (Inr u)
    with True ex w1 show ?thesis by (simp add: release_def split: option.splits)
  next
    case (Inl e)
    with True ex w1 reconnect_or_fail_frame(2) [of "lock_conn l" w1, where 'a = bool]
    show ?thesis by (simp add: release_def)
  qed
qed

text \<open>
  C9, as the code has it. \<^verbatim>\<open>start\<close> opens one connection for the coordinator, and
  every \<^verbatim>\<open>get_lock\<close> opens a further one for the handle it returns: a connection that
  did not exist before, so never the coordinator's. Everything \<^verbatim>\<open>acquire\<close> and
  \<^verbatim>\<open>release\<close> do to the server, statements and reconnects, goes over the handle's own
  connection, and neither opens or closes one; the heartbeat of a lock reaches no
  connection at all.
\<close>

theorem lock_uses_own_connection:
  "(start w = (Inr (), w1) \<longrightarrow>
      (\<exists>c. coord_conn w1 = Some c \<and> c = length (conns w) \<and> conn_alive w1 c \<and>
           log w1 = log w @ [EvOpen c]))
   \<and> (get_lock n w = (Inr l, w2) \<longrightarrow>
        lock_conn l = length (conns w) \<and> conn_alive w2 (lock_conn l) \<and>
        log w2 = log w @ [EvOpen (lock_conn l)] \<and>
        (\<forall>c. coord_conn w = Some c \<and> c < length (conns w) \<longrightarrow>
             coord_conn w2 = Some c \<and> lock_conn l \<noteq> c))
   \<and> (acquire fuel b l w = Some (r, w3) \<longrightarrow>
        (\<exists>evs. log w3 = log w @ evs \<and> (\<forall>x\<in>set evs. on_conn (lock_conn l) x)))
   \<and> (\<exists>evs. log (snd (release l w)) = log w @ evs \<and> (\<forall>x\<in>set evs. on_conn (lock_conn l) x))
   \<and> log (snd (lock_heartbeat l w)) = log w"
proof -
  have started: "\<exists>c. coord_conn w1 = Some c \<and> c = length (conns w) \<and> conn_alive w1 c \<and>
           log w1 = log w @ [EvOpen c]"
    if "start w = (Inr (), w1)"
  proof -
    from that obtain c v where g: "get_connection w = (Inr c, v)"
      and w1: "w1 = v\<lparr>coord_conn := Some c\<rparr>"
      by (auto simp: start_def split: prod.splits sum.splits)
    from get_connection_new [OF g] w1 show ?thesis
      by (auto simp: conn_alive_def)
  qed
  have handle: "lock_conn l = length (conns w) \<and> conn_alive w2 (lock_conn l) \<and>
        log w2 = log w @ [EvOpen (lock_conn l)] \<and>
        (\<forall>c. coord_conn w = Some c \<and> c < length (conns w) \<longrightarrow>
             coord_conn w2 = Some c \<and> lock_conn l \<noteq> c)"
    if "get_lock n w = (Inr l, w2)"
  proof -
    from that obtain c v where g: "get_connection w = (Inr c, v)"
      and l: "l = \<lparr>lock_id = next_lock v, lock_name = n, lock_conn = c\<rparr>"
      and w2: "w2 = v\<lparr>next_lock := Suc (next_lock v)\<rparr>"
      by (auto simp: get_lock_def split: prod.splits sum.splits)
    from get_connection_new [OF g] l w2 show ?thesis
      by (auto simp: conn_alive_def)
  qed
  have acq: "\<exists>evs. log w3 = log w @ evs \<and> (\<forall>x\<in>set evs. on_conn (lock_conn l) x)"
    if "acquire fuel b l w = Some (r, w3)"
    using that retry_lock_body_log [of fuel "deadline b" b l w r w3] by (simp add: acquire_def)
  have hb: "log (snd (lock_heartbeat l w)) = log w"
    by (simp add: lock_heartbeat_def heartbeat_body_def aquired_def)
  from started handle acq release_log [of l w] hb show ?thesis
    by blast
qed

text \<open>
  C9, as the claim has it, fails: after \<^verbatim>\<open>start\<close> and \<^verbatim>\<open>get_lock\<close> on a fresh server
  the coordinator owns connection 0, the handle has opened connection 1, and the insert
  of its \<^verbatim>\<open>acquire\<close> goes over connection 1.
\<close>

theorem lock_opens_own_connection:
  "start (driver_init ''m1'' fresh_world) = (Inr (), started_world)
   \<and> get_lock ''a'' started_world = (Inr handle_a, handled_world)
   \<and> coord_conn handled_world = Some 0
   \<and> lock_conn handle_a = 1
   \<and> log handled_world = [EvOpen 0, EvOpen 1]
   \<and> acquire 1 (BlockingBool False) handle_a handled_world =
       Some (Inr True,
             handled_world\<lparr>log := [EvOpen 0, EvOpen 1, EvExec 1 (Insert ''a'' ''m1'')],
                            table := Some [new_row ''a'' ''m1'' 0],
                            acquired_locks := [handle_a]\<rparr>)"
  by code_simp

theorem lock_uses_own_connection_witness:
  "start (driver_init ''m1'' fresh_world) = (Inr (), started_world)
   \<and> (\<exists>c. coord_conn started_world = Some c \<and>
           c = length (conns (driver_init ''m1'' fresh_world)) \<and> conn_alive started_world c \<and>
           log started_world = log (driver_init ''m1'' fresh_world) @ [EvOpen c])
   \<and> get_lock ''a'' started_world = (Inr handle_a, handled_world)
   \<and> coord_conn started_world = Some 0
   \<and> 0 < length (conns started_world)
   \<and> lock_conn handle_a = length (conns started_world)
   \<and> conn_alive handled_world (lock_conn handle_a)
   \<and> log handled_world = log started_world @ [EvOpen (lock_conn handle_a)]
   \<and> coord_conn handled_world = Some 0
   \<and> lock_conn handle_a \<noteq> 0
   \<and> acquire 1 (BlockingBool False) handle_a handled_world =
       Some (Inr True,
             handled_world\<lparr>log := [EvOpen 0, EvOpen 1, EvExec 1 (Insert ''a'' ''m1'')],
                            table := Some [new_row ''a'' ''m1'' 0],
                            acquired_locks := [handle_a]\<rparr>)
   \<and> (\<exists>evs. log (handled_world\<lparr>log := [EvOpen 0, EvOpen 1, EvExec 1 (Insert ''a'' ''m1'')],
                            table := Some [new_row ''a'' ''m1'' 0],
                            acquired_locks := [handle_a]\<rparr>) = log handled_world @ evs \<and>
           list_all (on_conn (lock_conn handle_a)) evs)"
proof -
  have s: "start (driver_init ''m1'' fresh_world) = (Inr (), started_world)"
    by code_simp
  have g: "get_lock ''a'' started_world = (Inr handle_a, handled_world)"
    by code_simp
  have c: "coord_conn started_world = Some 0 \<and> 0 < length (conns started_world)"
    by code_simp
  have a: "acquire 1 (BlockingBool False) handle_a handled_world =
       Some (Inr True,
             handled_world\<lparr>log := [EvOpen 0, EvOpen 1, EvExec 1 (Insert ''a'' ''m1'')],
                            table := Some [new_row ''a'' ''m1'' 0],
                            acquired_locks := [handle_a]\<rparr>)"
    by code_simp
  from lock_uses_own_connection
    [where w = "driver_init ''m1'' fresh_world" and ?w1.0 = started_world] s
  have e1: "\<exists>c. coord_conn started_world = Some c \<and>
           c = length (conns (driver_init ''m1'' fresh_world)) \<and> conn_alive started_world c \<and>
           log started_world = log (driver_init ''m1'' fresh_world) @ [EvOpen c]"
    by blast
  from lock_uses_own_connection
    [where w = started_world and n = "''a''" and l = handle_a and ?w2.0 = handled_world] g c
  have e2: "lock_conn handle_a = length (conns started_world) \<and>
            conn_alive handled_world (lock_conn handle_a) \<and>
            log handled_world = log started_world @ [EvOpen (lock_conn handle_a)] \<and>
            coord_conn handled_world = Some 0 \<and> lock_conn handle_a \<noteq> 0"
    by blast
  from lock_uses_own_connection
    [where w = handled_world and l = handle_a and fuel = 1 and b = "BlockingBool False"
       and r = "Inr True"
       and ?w3.0 = "handled_world\<lparr>log := [EvOpen 0, EvOpen 1, EvExec 1 (Insert ''a'' ''m1'')],
                            table := Some [new_row ''a'' ''m1'' 0],
                            acquired_locks := [handle_a]\<rparr>"] a
  have e3: "\<exists>evs. log (handled_world\<lparr>log := [EvOpen 0, EvOpen 1, EvExec 1 (Insert ''a'' ''m1'')],
                            table := Some [new_row ''a'' ''m1'' 0],
                            acquired_locks := [handle_a]\<rparr>) = log handled_world @ evs \<and>
           list_all (on_conn (lock_conn handle_a)) evs"
    by (simp only: list_all_iff)
  from s g c a e1 e2 e3 show ?thesis by blast
qed

end
